theory Spec2Isabelle
  imports Complex_Main "HOL-Library.AList" "HOL-Library.Char_ord" "HOL-Library.List_Lexorder"
begin

section \<open>Values, rows and exceptions\<close>

text \<open>
  Python values that reach the controllers as keyword arguments and that the table's
  columns hold. \<open>VList\<close> stands for a list or a tuple. A row is the association of
  attribute names to values of one ORM instance; an attribute that is not set reads as
  \<open>None\<close> (SQL \<open>NULL\<close>). A keyword dictionary keeps its insertion order.
\<close>

datatype val = VNone | VBool bool | VInt int | VStr string | VList "val list"

type_synonym row = "(string \<times> val) list"
type_synonym kwargs = "(string \<times> val) list"

datatype error =
    RecordNotFoundError
  | RecordAlreadyExistsError
  | PasswordValidationError string
  | ValueError
  | TypeError
  | AttributeError
  | ZeroDivisionError
  | ArgumentError
  | IntegrityError
  | SQLAlchemyError

definition lookup :: "row \<Rightarrow> string \<Rightarrow> val" where
  "lookup r k = (case map_of r k of None \<Rightarrow> VNone | Some v \<Rightarrow> v)"

definition row_id :: "row \<Rightarrow> val" where
  "row_id r = lookup r ''id''"

text \<open>\<^verbatim>\<open>setattr(instance, key, value)\<close> for each item of a dictionary, in its order.\<close>

definition set_attrs :: "row \<Rightarrow> kwargs \<Rightarrow> row" where
  "set_attrs r kw = fold (\<lambda>(k, v) r'. AList.update k v r') kw r"

subsection \<open>Python's \<^verbatim>\<open>str\<close> and \<^verbatim>\<open>str.split\<close>\<close>








text \<open>
  \<^verbatim>\<open>str.lower\<close> on characters with codes below 256: the letters A to Z and the
  accented capitals (codes 192 to 222, but for the multiplication sign 215) move up by 32.
\<close>

definition lower_char :: "char \<Rightarrow> char" where
  "lower_char c =
     (let n = (of_char c :: nat)
      in if (65 \<le> n \<and> n \<le> 90) \<or> (192 \<le> n \<and> n \<le> 222 \<and> n \<noteq> 215) then char_of (n + 32)
         else c)"

definition lower :: "string \<Rightarrow> string" where
  "lower s = map lower_char s"

section \<open>The ORM boundary: model class, session and query\<close>

text \<open>
  Modelled from the spec: the declarative base class and the module-level session object
  that the controllers import from \<^verbatim>\<open>database.database\<close>, a module that is not among
  the sources. The controllers are generic in a model class and reuse the one session
  across their calls; what they use of both, through the ORM's public interface, is
  modelled in this section.

  A model class is known by the names \<^verbatim>\<open>hasattr\<close> accepts (its mapped columns, the
  primary key \<^verbatim>\<open>id\<close> of \<^verbatim>\<open>BaseModel\<close> among them), by its columns declared
  \<^verbatim>\<open>unique=True\<close>, and by its columns declared \<^verbatim>\<open>nullable=False\<close> without a default.
\<close>

record model =
  attrs :: "string list"
  unique_cols :: "string list"
  required_cols :: "string list"

definition hasattr :: "model \<Rightarrow> string \<Rightarrow> bool" where
  "hasattr m f = (f \<in> set (attrs m))"

text \<open>
  Modelled from the spec: the session object \<^verbatim>\<open>session\<close> of
  \<^verbatim>\<open>database.database\<close>, over the table of the controller's model: the committed
  table (\<open>stored\<close>), the table as the open transaction sees it (\<open>txn\<close>), and the
  instances pending insertion (\<open>new\<close>) and deletion (\<open>deleted\<close>) until the next
  flush.
\<close>

record session =
  stored :: "row list"
  txn :: "row list"
  new :: "row list"
  deleted :: "row list"

type_synonym 'a result = "(error + 'a) \<times> session"

definition clean :: "session \<Rightarrow> bool" where
  "clean s = (txn s = stored s \<and> new s = [] \<and> deleted s = [])"

definition session_add :: "session \<Rightarrow> row \<Rightarrow> session" where
  "session_add s instance = s\<lparr>new := new s @ [instance]\<rparr>"

definition session_delete :: "session \<Rightarrow> row \<Rightarrow> session" where
  "session_delete s instance = s\<lparr>deleted := deleted s @ [instance]\<rparr>"

definition session_rollback :: "session \<Rightarrow> session" where
  "session_rollback s = s\<lparr>txn := stored s, new := [], deleted := []\<rparr>"

text \<open>\<^verbatim>\<open>session.close()\<close> ends the transaction; work that was not committed is lost.\<close>

definition session_close :: "session \<Rightarrow> session" where
  "session_close s = s\<lparr>txn := stored s, new := [], deleted := []\<rparr>"

subsection \<open>Integrity constraints\<close>

definition is_int :: "val \<Rightarrow> bool" where
  "is_int v = (case v of VInt n \<Rightarrow> True | _ \<Rightarrow> False)"

definition ids :: "row list \<Rightarrow> int list" where
  "ids t = concat (map (\<lambda>r. case row_id r of VInt n \<Rightarrow> [n] | _ \<Rightarrow> []) t)"

text \<open>The autoincremented primary key: one more than the largest key in the table.\<close>

definition next_id :: "row list \<Rightarrow> int" where
  "next_id t = fold max (ids t) 0 + 1"

definition with_id :: "row list \<Rightarrow> row \<Rightarrow> row" where
  "with_id t r = (if row_id r = VNone then AList.update ''id'' (VInt (next_id t)) r else r)"

text \<open>
  Two rows conflict when they have the same primary key or the same non-null value in a
  unique column. A row violates the constraints of a table when its key is not an integer,
  a required column is null, or it conflicts with a row of the table.
\<close>

definition conflicts :: "model \<Rightarrow> row \<Rightarrow> row \<Rightarrow> bool" where
  "conflicts m r r' =
     (row_id r = row_id r'
      \<or> list_ex (\<lambda>c. lookup r c \<noteq> VNone \<and> lookup r c = lookup r' c) (unique_cols m))"

definition violates :: "model \<Rightarrow> row list \<Rightarrow> row \<Rightarrow> bool" where
  "violates m t r =
     (\<not> is_int (row_id r)
      \<or> list_ex (\<lambda>c. lookup r c = VNone) (required_cols m)
      \<or> list_ex (conflicts m r) t)"

fun table_ok :: "model \<Rightarrow> row list \<Rightarrow> bool" where
  "table_ok m [] = True"
| "table_ok m (r # t) = (\<not> violates m t r \<and> table_ok m t)"

text \<open>\<^verbatim>\<open>INSERT\<close>: the row gets its key, and is refused when it violates a constraint.\<close>

definition db_insert :: "model \<Rightarrow> row list \<Rightarrow> row \<Rightarrow> error + (row \<times> row list)" where
  "db_insert m t r =
     (let r' = with_id t r
      in if violates m t r' then Inl IntegrityError else Inr (r', t @ [r']))"

fun flush_new :: "model \<Rightarrow> row list \<Rightarrow> row list \<Rightarrow> error + (row list \<times> row list)" where
  "flush_new m t [] = Inr ([], t)"
| "flush_new m t (r # rs) =
     (case db_insert m t r of
        Inl e \<Rightarrow> Inl e
      | Inr (r', t') \<Rightarrow>
          (case flush_new m t' rs of
             Inl e \<Rightarrow> Inl e
           | Inr (rs', t'') \<Rightarrow> Inr (r' # rs', t'')))"

text \<open>
  A flush inserts the pending instances, then deletes the instances marked for deletion
  by their primary key. It returns the inserted instances as the database holds them
  (with their keys).
\<close>

definition session_flush :: "model \<Rightarrow> session \<Rightarrow> error + (row list \<times> session)" where
  "session_flush m s =
     (case flush_new m (txn s) (new s) of
        Inl e \<Rightarrow> Inl e
      | Inr (insts, t) \<Rightarrow>
          Inr (insts,
               s\<lparr>txn := filter (\<lambda>r. row_id r \<notin> set (map row_id (deleted s))) t,
                 new := [], deleted := []\<rparr>))"

definition session_commit :: "model \<Rightarrow> session \<Rightarrow> (row list) result" where
  "session_commit m s =
     (case session_flush m s of
        Inl e \<Rightarrow> (Inl e, s)
      | Inr (insts, s') \<Rightarrow> (Inr insts, s'\<lparr>stored := txn s'\<rparr>))"

text \<open>
  The caller's reference to the instance it added last denotes, after the flush, the last
  inserted row.
\<close>

definition refreshed :: "row list \<Rightarrow> row \<Rightarrow> row" where
  "refreshed insts instance = (case rev insts of [] \<Rightarrow> instance | r # _ \<Rightarrow> r)"

subsection \<open>Criteria and queries\<close>

datatype criterion =
    Eq string val
  | Ne string val
  | In string "val list"
  | NotIn string "val list"
  | Like string string
  | ILike string string
  | Gt string val
  | Lt string val
  | Ge string val
  | Le string val
  | And "criterion list"

text \<open>
  Comparison of two values by the database: integers by size, strings by the order of
  their characters; \<open>NULL\<close> compares with nothing.
\<close>

fun val_less :: "val \<Rightarrow> val \<Rightarrow> bool" where
  "val_less (VInt a) (VInt b) = (a < b)"
| "val_less (VStr a) (VStr b) = (a < b)"
| "val_less _ _ = False"

text \<open>
  SQL \<open>LIKE\<close>: \<open>%\<close> in the pattern matches any run of characters, \<open>_\<close> any one
  character, every other character itself.
\<close>

fun like_match :: "string \<Rightarrow> string \<Rightarrow> bool" where
  "like_match [] t = (t = [])"
| "like_match (p # ps) t =
     (if p = CHR ''%'' then
        (like_match ps t \<or> (case t of [] \<Rightarrow> False | c # cs \<Rightarrow> like_match (p # ps) cs))
      else (case t of [] \<Rightarrow> False | c # cs \<Rightarrow> (p = CHR ''_'' \<or> p = c) \<and> like_match ps cs))"

fun matches :: "criterion \<Rightarrow> row \<Rightarrow> bool" where
  "matches (Eq c v) r = (lookup r c = v)"
| "matches (Ne c v) r = (lookup r c \<noteq> v \<and> (v = VNone \<or> lookup r c \<noteq> VNone))"
| "matches (In c vs) r = (lookup r c \<noteq> VNone \<and> lookup r c \<in> set vs)"
| "matches (NotIn c vs) r =
     (lookup r c \<noteq> VNone \<and> VNone \<notin> set vs \<and> lookup r c \<notin> set vs)"
| "matches (Like c p) r = (case lookup r c of VStr t \<Rightarrow> like_match p t | _ \<Rightarrow> False)"
| "matches (ILike c p) r =
     (case lookup r c of VStr t \<Rightarrow> like_match (lower p) (lower t) | _ \<Rightarrow> False)"
| "matches (Gt c v) r = val_less v (lookup r c)"
| "matches (Lt c v) r = val_less (lookup r c) v"
| "matches (Ge c v) r = (val_less v (lookup r c) \<or> (v \<noteq> VNone \<and> lookup r c = v))"
| "matches (Le c v) r = (val_less (lookup r c) v \<or> (v \<noteq> VNone \<and> lookup r c = v))"
| "matches (And cs) r = list_all (\<lambda>c. matches c r) cs"


datatype SortDirection = ASCENDING | DESCENDING

record query =
  criteria :: "criterion list"
  ordering :: "(string \<times> SortDirection) option"
  q_offset :: "int option"
  q_limit :: "int option"

text \<open>\<^verbatim>\<open>session.query(self.model)\<close>.\<close>

definition session_query :: query where
  "session_query = \<lparr>criteria = [], ordering = None, q_offset = None, q_limit = None\<rparr>"

definition query_filter :: "query \<Rightarrow> criterion \<Rightarrow> query" where
  "query_filter q c = q\<lparr>criteria := criteria q @ [c]\<rparr>"

definition query_order_by :: "query \<Rightarrow> string \<Rightarrow> SortDirection \<Rightarrow> query" where
  "query_order_by q c d = q\<lparr>ordering := Some (c, d)\<rparr>"

definition query_offset :: "query \<Rightarrow> int \<Rightarrow> query" where
  "query_offset q n = q\<lparr>q_offset := Some n\<rparr>"

definition query_limit :: "query \<Rightarrow> int \<Rightarrow> query" where
  "query_limit q n = q\<lparr>q_limit := Some n\<rparr>"

fun insort_by :: "(row \<Rightarrow> row \<Rightarrow> bool) \<Rightarrow> row \<Rightarrow> row list \<Rightarrow> row list" where
  "insort_by le x [] = [x]"
| "insort_by le x (y # ys) = (if le x y then x # y # ys else y # insort_by le x ys)"

definition order_rows :: "(string \<times> SortDirection) option \<Rightarrow> row list \<Rightarrow> row list" where
  "order_rows ord rows =
     (case ord of
        None \<Rightarrow> rows
      | Some (c, ASCENDING) \<Rightarrow>
          foldr (insort_by (\<lambda>a b. \<not> val_less (lookup b c) (lookup a c))) rows []
      | Some (c, DESCENDING) \<Rightarrow>
          foldr (insort_by (\<lambda>a b. \<not> val_less (lookup a c) (lookup b c))) rows [])"

text \<open>
  \<open>OFFSET\<close> and \<open>LIMIT\<close> as SQLite evaluates them: a negative offset skips nothing,
  a negative limit is no limit.
\<close>

definition apply_offset :: "int option \<Rightarrow> row list \<Rightarrow> row list" where
  "apply_offset n rows = (case n of None \<Rightarrow> rows | Some k \<Rightarrow> drop (nat k) rows)"

definition apply_limit :: "int option \<Rightarrow> row list \<Rightarrow> row list" where
  "apply_limit n rows =
     (case n of None \<Rightarrow> rows | Some k \<Rightarrow> if k < 0 then rows else take (nat k) rows)"

definition matching :: "session \<Rightarrow> query \<Rightarrow> row list" where
  "matching s q = filter (\<lambda>r. list_all (\<lambda>c. matches c r) (criteria q)) (txn s)"

text \<open>\<^verbatim>\<open>query.all()\<close>, \<^verbatim>\<open>query.count()\<close>, and \<^verbatim>\<open>scalar()\<close> of a query on \<^verbatim>\<open>func.count(self.model.id)\<close>.\<close>

definition query_all :: "session \<Rightarrow> query \<Rightarrow> row list" where
  "query_all s q =
     apply_limit (q_limit q) (apply_offset (q_offset q) (order_rows (ordering q) (matching s q)))"

definition query_count :: "session \<Rightarrow> query \<Rightarrow> int" where
  "query_count s q = int (length (query_all s q))"

definition query_count_id :: "session \<Rightarrow> query \<Rightarrow> int" where
  "query_count_id s q = int (length (filter (\<lambda>r. row_id r \<noteq> VNone) (query_all s q)))"

text \<open>\<^verbatim>\<open>session.query(self.model).get(id')\<close>.\<close>

definition query_get :: "session \<Rightarrow> int \<Rightarrow> row option" where
  "query_get s id' = find (\<lambda>r. row_id r = VInt id') (txn s)"

text \<open>
  \<^verbatim>\<open>query.update(values, synchronize_session=False)\<close>: an \<open>UPDATE\<close> of the matching rows
  inside the transaction, refused as a whole when the table it leaves breaks a
  constraint; it returns the number of rows matched.
\<close>

definition query_update :: "model \<Rightarrow> session \<Rightarrow> query \<Rightarrow> kwargs \<Rightarrow> int result" where
  "query_update m s q kw =
     (let hit = (\<lambda>r. list_all (\<lambda>c. matches c r) (criteria q));
          t' = map (\<lambda>r. if hit r then set_attrs r kw else r) (txn s)
      in if table_ok m t' then (Inr (int (length (filter hit (txn s)))), s\<lparr>txn := t'\<rparr>)
         else (Inl IntegrityError, s))"

text \<open>\<^verbatim>\<open>query.delete(synchronize_session=False)\<close>: it returns the number of rows deleted.\<close>

definition query_delete :: "session \<Rightarrow> query \<Rightarrow> int \<times> session" where
  "query_delete s q =
     (let hit = (\<lambda>r. list_all (\<lambda>c. matches c r) (criteria q))
      in (int (length (filter hit (txn s))), s\<lparr>txn := filter (\<lambda>r. \<not> hit r) (txn s)\<rparr>))"

text \<open>
  The declarative constructor \<^verbatim>\<open>self.model(**kwargs)\<close> sets each keyword as an attribute
  and raises \<^verbatim>\<open>TypeError\<close> for a keyword that is not an attribute of the class.
\<close>

definition model_init :: "model \<Rightarrow> kwargs \<Rightarrow> error + row" where
  "model_init m kw =
     (if list_all (\<lambda>k. hasattr m k) (map fst kw) then Inr (set_attrs [] kw) else Inl TypeError)"

section \<open>BaseController (controllers/base\_controller.py)\<close>

text \<open>
  Every method runs in a \<^verbatim>\<open>try\<close> whose \<^verbatim>\<open>finally\<close> closes the session. A method
  takes the model class of the controller and the session, and returns what it returns or
  raises (\<open>Inl\<close> the exception) together with the session it leaves.
  \<open>is_sqlalchemy_error\<close> tells which exceptions an \<^verbatim>\<open>except SQLAlchemyError\<close> clause
  catches.
\<close>

definition is_sqlalchemy_error :: "error \<Rightarrow> bool" where
  "is_sqlalchemy_error e = (e = IntegrityError \<or> e = ArgumentError \<or> e = SQLAlchemyError)"

text \<open>
  \<^verbatim>\<open>create\<close>. The same text, up to the message, is \<^verbatim>\<open>create\<close> of controllers/base.py.
\<close>

definition create :: "model \<Rightarrow> session \<Rightarrow> kwargs \<Rightarrow> row result" where
  "create m s kw =
     (case model_init m kw of
        Inl e \<Rightarrow> (Inl e, session_close s)
      | Inr instance \<Rightarrow>
          (case session_commit m (session_add s instance) of
             (Inr insts, s') \<Rightarrow> (Inr (refreshed insts instance), session_close s')
           | (Inl e, s') \<Rightarrow>
               if e = IntegrityError
               then (Inl RecordAlreadyExistsError, session_close (session_rollback s'))
               else if is_sqlalchemy_error e
               then (Inl e, session_close (session_rollback s'))
               else (Inl e, session_close s')))"

text \<open>
  \<^verbatim>\<open>get_by_id\<close>. The same text, up to the message, is \<^verbatim>\<open>get_by_id\<close> of
  controllers/base.py.
\<close>

definition get_by_id :: "model \<Rightarrow> session \<Rightarrow> int \<Rightarrow> row result" where
  "get_by_id m s id' =
     (case query_get s id' of
        None \<Rightarrow> (Inl RecordNotFoundError, session_close s)
      | Some instance \<Rightarrow> (Inr instance, session_close s))"

text \<open>\<^verbatim>\<open>_apply_filters\<close>: a key that is not an attribute of the model is skipped.\<close>

fun apply_filters :: "model \<Rightarrow> query \<Rightarrow> kwargs \<Rightarrow> query" where
  "apply_filters m q [] = q"
| "apply_filters m q ((key, v) # filters) =
     (if hasattr m key then
        (case v of
           VList vs \<Rightarrow> apply_filters m (query_filter q (In key vs)) filters
         | _ \<Rightarrow> apply_filters m (query_filter q (Eq key v)) filters)
      else apply_filters m q filters)"

text \<open>The dictionary \<^verbatim>\<open>paginate\<close> returns: its five keys are the fields.\<close>

record page_result =
  r_items :: "row list"
  r_total :: int
  r_page :: int
  r_per_page :: int
  r_pages :: int

text \<open>
  \<^verbatim>\<open>paginate\<close>. Python's \<^verbatim>\<open>//\<close> is floor division, as \<open>div\<close> on \<open>int\<close> is, and
  raises \<^verbatim>\<open>ZeroDivisionError\<close> when \<^verbatim>\<open>per_page\<close> is 0.
\<close>

definition paginate :: "model \<Rightarrow> session \<Rightarrow> int \<Rightarrow> int \<Rightarrow> kwargs \<Rightarrow> page_result result" where
  "paginate m s page per_page filters =
     (let query = session_query;
          query = (if filters \<noteq> [] then apply_filters m query filters else query);
          offset = (page - 1) * per_page;
          tot = query_count s query;
          items = query_all s (query_limit (query_offset query offset) per_page)
      in if per_page = 0 then (Inl ZeroDivisionError, session_close s)
         else (Inr \<lparr>r_items = items, r_total = tot, r_page = page, r_per_page = per_page,
                    r_pages = (tot + per_page - 1) div per_page\<rparr>,
               session_close s))"

definition count :: "model \<Rightarrow> session \<Rightarrow> kwargs \<Rightarrow> int result" where
  "count m s filters =
     (let query = session_query;
          query = (if filters \<noteq> [] then apply_filters m query filters else query)
      in (Inr (query_count_id s query), session_close s))"

definition exists :: "model \<Rightarrow> session \<Rightarrow> kwargs \<Rightarrow> bool result" where
  "exists m s filters =
     (case count m s filters of
        (Inl e, s') \<Rightarrow> (Inl e, s')
      | (Inr n, s') \<Rightarrow> (Inr (n > 0), s'))"

text \<open>The \<^verbatim>\<open>except\<close> clauses of \<^verbatim>\<open>update\<close> and its \<^verbatim>\<open>finally\<close>.\<close>

definition update_except :: "error \<Rightarrow> session \<Rightarrow> row result" where
  "update_except e s =
     (if e = RecordNotFoundError \<or> e = ValueError
      then (Inl e, session_close (session_rollback s))
      else if is_sqlalchemy_error e
      then (Inl SQLAlchemyError, session_close (session_rollback s))
      else (Inl e, session_close s))"

definition update :: "model \<Rightarrow> session \<Rightarrow> int \<Rightarrow> kwargs \<Rightarrow> row result" where
  "update m s id' kw =
     (let invalid_fields = filter (\<lambda>field. \<not> hasattr m field) (map fst kw)
      in if invalid_fields \<noteq> [] then update_except ValueError s
         else
           (case query_update m s (query_filter session_query (Eq ''id'' (VInt id'))) kw of
              (Inl e, s1) \<Rightarrow> update_except e s1
            | (Inr rows_updated, s1) \<Rightarrow>
                if rows_updated = 0 then update_except RecordNotFoundError s1
                else
                  (case session_commit m s1 of
                     (Inl e, s2) \<Rightarrow> update_except e s2
                   | (Inr _, s2) \<Rightarrow>
                       (case get_by_id m s2 id' of
                          (Inl e, s3) \<Rightarrow> update_except e s3
                        | (Inr instance, s3) \<Rightarrow> (Inr instance, session_close s3)))))"

definition delete_except :: "error \<Rightarrow> session \<Rightarrow> bool result" where
  "delete_except e s =
     (if e = RecordNotFoundError
      then (Inl e, session_close (session_rollback s))
      else if is_sqlalchemy_error e
      then (Inl SQLAlchemyError, session_close (session_rollback s))
      else (Inl e, session_close s))"

definition delete :: "model \<Rightarrow> session \<Rightarrow> int \<Rightarrow> bool result" where
  "delete m s id' =
     (case query_delete s (query_filter session_query (Eq ''id'' (VInt id'))) of
        (rows_deleted, s1) \<Rightarrow>
          if rows_deleted = 0 then delete_except RecordNotFoundError s1
          else
            (case session_commit m s1 of
               (Inl e, s2) \<Rightarrow> delete_except e s2
             | (Inr _, s2) \<Rightarrow> (Inr True, session_close s2)))"



section \<open>BaseController (controllers/base.py)\<close>

text \<open>
  The methods of the second controller that differ from the first carry the suffix
  \<open>_b\<close>. \<^verbatim>\<open>getattr(self.model, key)\<close> raises \<^verbatim>\<open>AttributeError\<close> for a name that is
  not an attribute.
\<close>

definition getattr :: "model \<Rightarrow> string \<Rightarrow> error + string" where
  "getattr m name = (if hasattr m name then Inr name else Inl AttributeError)"

fun apply_filters_b :: "model \<Rightarrow> query \<Rightarrow> kwargs \<Rightarrow> error + query" where
  "apply_filters_b m q [] = Inr q"
| "apply_filters_b m q ((key, v) # filters) =
     (case getattr m key of
        Inl e \<Rightarrow> Inl e
      | Inr column \<Rightarrow>
          (case v of
             VList vs \<Rightarrow> apply_filters_b m (query_filter q (In column vs)) filters
           | _ \<Rightarrow> apply_filters_b m (query_filter q (Eq column v)) filters))"

text \<open>\<^verbatim>\<open>PaginationOptions\<close> of controllers/utils.py.\<close>

record PaginationOptions =
  o_page :: int
  o_per_page :: int
  o_order_by :: "string option"
  o_direction :: SortDirection
  o_filters :: kwargs

definition paginate_b :: "model \<Rightarrow> session \<Rightarrow> PaginationOptions \<Rightarrow> page_result result" where
  "paginate_b m s options =
     (case (if o_filters options \<noteq> [] then apply_filters_b m session_query (o_filters options)
            else Inr session_query) of
        Inl e \<Rightarrow> (Inl e, session_close s)
      | Inr query \<Rightarrow>
          (let tot = query_count s query
           in case (case o_order_by options of
                      None \<Rightarrow> Inr query
                    | Some name \<Rightarrow>
                        if name = [] then Inr query
                        else (case getattr m name of
                                Inl e \<Rightarrow> Inl e
                              | Inr column \<Rightarrow>
                                  Inr (query_order_by query column (o_direction options)))) of
                Inl e \<Rightarrow> (Inl e, session_close s)
              | Inr query \<Rightarrow>
                  (let offset = (o_page options - 1) * o_per_page options;
                       items = query_all s (query_limit (query_offset query offset)
                                 (o_per_page options))
                   in if o_per_page options = 0 then (Inl ZeroDivisionError, session_close s)
                      else (Inr \<lparr>r_items = items, r_total = tot, r_page = o_page options,
                                 r_per_page = o_per_page options,
                                 r_pages = (tot + o_per_page options - 1) div o_per_page options\<rparr>,
                            session_close s))))"

text \<open>The static helpers \<^verbatim>\<open>_validate_pagination\<close> and \<^verbatim>\<open>_calculate_offset\<close>.\<close>

definition validate_pagination :: "int \<Rightarrow> int \<Rightarrow> error + unit" where
  "validate_pagination page per_page =
     (if page < 1 then Inl ValueError
      else if per_page < 1 then Inl ValueError
      else Inr ())"

definition calculate_offset :: "int \<Rightarrow> int \<Rightarrow> int" where
  "calculate_offset page per_page = (page - 1) * per_page"



text \<open>
  \<^verbatim>\<open>delete\<close> of controllers/base.py: \<^verbatim>\<open>except RecordNotFoundError: return False\<close>.
\<close>

definition delete_except_b :: "error \<Rightarrow> session \<Rightarrow> bool result" where
  "delete_except_b e s =
     (if e = RecordNotFoundError
      then (Inr False, session_close s)
      else if is_sqlalchemy_error e
      then (Inl e, session_close (session_rollback s))
      else (Inl e, session_close s))"

definition delete_b :: "model \<Rightarrow> session \<Rightarrow> int \<Rightarrow> bool result" where
  "delete_b m s id' =
     (case get_by_id m s id' of
        (Inl e, s1) \<Rightarrow> delete_except_b e s1
      | (Inr instance, s1) \<Rightarrow>
          (case session_commit m (session_delete s1 instance) of
             (Inl e, s2) \<Rightarrow> delete_except_b e s2
           | (Inr _, s2) \<Rightarrow> (Inr True, session_close s2)))"




section \<open>AuthController (authentication/controllers/user\_controller.py)\<close>













section \<open>ProgressWorker (components/progress\_bar.py)\<close>

text \<open>
  The worker object holds the function to run, its arguments and the private flag
  \<^verbatim>\<open>_is_running\<close>. The model keeps the flag and the signals emitted so far; the
  function itself is seen through what it can do to the worker: it receives the three
  callbacks \<^verbatim>\<open>progress_callback\<close>, \<^verbatim>\<open>label_callback\<close> and
  \<^verbatim>\<open>is_running\<close>, and it returns or raises.
\<close>

datatype signal =
    Progress_changed int int
  | Label_changed string
  | Finished string
  | Error string

record ProgressWorker =
  is_running_flag :: bool
  emitted :: "signal list"

text \<open>\<^verbatim>\<open>__init__\<close>: \<^verbatim>\<open>self._is_running = True\<close>.\<close>

definition worker_init :: ProgressWorker where
  "worker_init = \<lparr>is_running_flag = True, emitted = []\<rparr>"

text \<open>\<^verbatim>\<open>stop\<close>: \<^verbatim>\<open>self._is_running = False\<close>.\<close>

definition stop :: "ProgressWorker \<Rightarrow> ProgressWorker" where
  "stop w = w\<lparr>is_running_flag := False\<rparr>"

text \<open>The closure \<^verbatim>\<open>lambda: self._is_running\<close> reads the flag when it is called.\<close>

definition is_running :: "ProgressWorker \<Rightarrow> bool" where
  "is_running w = is_running_flag w"

definition progress_callback :: "ProgressWorker \<Rightarrow> int \<Rightarrow> int \<Rightarrow> ProgressWorker" where
  "progress_callback w v tot = w\<lparr>emitted := emitted w @ [Progress_changed v tot]\<rparr>"

definition label_callback :: "ProgressWorker \<Rightarrow> string \<Rightarrow> ProgressWorker" where
  "label_callback w t = w\<lparr>emitted := emitted w @ [Label_changed t]\<rparr>"

text \<open>
  What happens to a worker while \<^verbatim>\<open>run\<close> executes the function on the secondary
  thread: the function calls one of its three callbacks, or the owner of the worker calls
  \<^verbatim>\<open>stop\<close> from the interface thread. A step returns the new worker and, for a call
  of the closure, the boolean the closure returned.
\<close>

datatype event =
    Call_stop
  | Call_is_running
  | Call_progress int int
  | Call_label string

fun step :: "ProgressWorker \<Rightarrow> event \<Rightarrow> ProgressWorker \<times> bool option" where
  "step w Call_stop = (stop w, None)"
| "step w Call_is_running = (w, Some (is_running w))"
| "step w (Call_progress v tot) = (progress_callback w v tot, None)"
| "step w (Call_label t) = (label_callback w t, None)"

fun steps :: "ProgressWorker \<Rightarrow> event list \<Rightarrow> ProgressWorker \<times> bool list" where
  "steps w [] = (w, [])"
| "steps w (e # es) =
     (case step w e of (w', out) \<Rightarrow>
        (case steps w' es of (w'', outs) \<Rightarrow>
           (w'', (case out of None \<Rightarrow> outs | Some b \<Rightarrow> b # outs))))"

text \<open>
  \<^verbatim>\<open>run\<close>: the function runs (the events \<open>es\<close>), then its result is emitted with
  \<^verbatim>\<open>finished\<close>, or the text of the exception it raised with \<^verbatim>\<open>error\<close>.
\<close>

definition run :: "ProgressWorker \<Rightarrow> event list \<Rightarrow> string + string \<Rightarrow> ProgressWorker \<times> bool list" where
  "run w es outcome =
     (case steps w es of (w', outs) \<Rightarrow>
        (case outcome of
           Inr result \<Rightarrow> (w'\<lparr>emitted := emitted w' @ [Finished result]\<rparr>, outs)
         | Inl e \<Rightarrow> (w'\<lparr>emitted := emitted w' @ [Error e]\<rparr>, outs)))"

section \<open>Notions of the specification and a sample table\<close>


text \<open>A model with a unique and a required column, and a session with two stored records.\<close>

definition m0 :: model where
  "m0 = \<lparr>attrs = [''id'', ''name'', ''email'', ''age''], unique_cols = [''email''],
         required_cols = [''name'']\<rparr>"

definition r1 :: row where
  "r1 = [(''id'', VInt 1), (''name'', VStr ''Ann''), (''email'', VStr ''a@x''), (''age'', VInt 30)]"

definition r2 :: row where
  "r2 = [(''id'', VInt 2), (''name'', VStr ''Bob''), (''email'', VStr ''b@x''), (''age'', VInt 41)]"

definition s0 :: session where
  "s0 = \<lparr>stored = [r1, r2], txn = [r1, r2], new = [], deleted = []\<rparr>"

text \<open>
  A record matches a dictionary of filters when, for each key that is an attribute of the
  model, its value is the given one or, for a list, is one of the list.
\<close>

definition satisfies :: "model \<Rightarrow> kwargs \<Rightarrow> row \<Rightarrow> bool" where
  "satisfies m filters r =
     list_all (\<lambda>(k, v). hasattr m k \<longrightarrow>
        (case v of
           VList vs \<Rightarrow> lookup r k \<noteq> VNone \<and> lookup r k \<in> set vs
         | _ \<Rightarrow> lookup r k = v)) filters"

text \<open>
  Pagination options whose filter keys and ordering column exist on the model, and the
  ordering they ask for (none when \<^verbatim>\<open>order_by\<close> is \<^verbatim>\<open>None\<close> or empty).
\<close>

definition valid_options :: "model \<Rightarrow> PaginationOptions \<Rightarrow> bool" where
  "valid_options m options =
     (list_all (hasattr m) (map fst (o_filters options))
      \<and> (case o_order_by options of None \<Rightarrow> True | Some name \<Rightarrow> name = [] \<or> hasattr m name))"

definition options_ordering :: "PaginationOptions \<Rightarrow> (string \<times> SortDirection) option" where
  "options_ordering options =
     (case o_order_by options of
        None \<Rightarrow> None
      | Some name \<Rightarrow> if name = [] then None else Some (name, o_direction options))"

definition opts0 :: PaginationOptions where
  "opts0 = \<lparr>o_page = 1, o_per_page = 1, o_order_by = Some ''age'', o_direction = DESCENDING,
            o_filters = [(''age'', VList [VInt 30, VInt 41])]\<rparr>"








section \<open>The session between two calls\<close>

text \<open>
  Every method ends by closing the session, so a method finds the session \<open>clean\<close>:
  the transaction sees the committed table and nothing is pending.
\<close>

lemma close_clean: "clean s \<Longrightarrow> session_close s = s"
  by (simp add: clean_def session_close_def)


lemma close_rollback: "session_close (session_rollback s) = session_close s"
  by (simp add: session_close_def session_rollback_def)

lemma stored_close: "stored (session_close s) = stored s"
  by (simp add: session_close_def)

lemma clean_close: "clean (session_close s)"
  by (simp add: session_close_def clean_def)

lemma close_eq: "session_close s = \<lparr>stored = stored s, txn = stored s, new = [], deleted = []\<rparr>"
  by (simp add: session_close_def)

lemma close_lit:
  "session_close \<lparr>stored = a, txn = b, new = c, deleted = d\<rparr>
     = \<lparr>stored = a, txn = a, new = [], deleted = []\<rparr>"
  by (simp add: session_close_def)

lemma find_id_None: "(find (\<lambda>r. row_id r = v) t = None) = (\<not> list_ex (\<lambda>r. row_id r = v) t)"
  by (auto simp: find_None_iff list_ex_iff)

lemma hit_id:
  "list_all (\<lambda>c. matches c r) (criteria (query_filter session_query (Eq ''id'' v))) = (row_id r = v)"
  by (simp add: query_filter_def session_query_def row_id_def)

lemma commit_nothing_pending:
  "new s = [] \<Longrightarrow> deleted s = [] \<Longrightarrow> session_commit m s = (Inr [], s\<lparr>stored := txn s\<rparr>)"
  by (cases s) (simp add: session_commit_def session_flush_def)

lemma filter_empty_list_ex: "(filter P xs = []) = (\<not> list_ex P xs)"
  by (auto simp: list_ex_iff filter_empty_conv)

subsection \<open>The sample table\<close>

lemma s0_clean: "clean s0"
  by (simp add: s0_def clean_def)

lemma s0_stored: "stored s0 = [r1, r2]"
  by (simp add: s0_def)

lemma s0_ids: "row_id r1 = VInt 1" "row_id r2 = VInt 2"
  by (simp_all add: r1_def r2_def row_id_def lookup_def)


section \<open>\<open>get_by_id\<close>\<close>

lemma get_by_id_found:
  assumes "clean s" and "list_ex (\<lambda>r. row_id r = VInt id') (stored s)"
  shows "\<exists>r. get_by_id m s id' = (Inr r, s) \<and> r \<in> set (stored s) \<and> row_id r = VInt id'"
proof -
  obtain r where "find (\<lambda>r. row_id r = VInt id') (stored s) = Some r"
    using assms(2) find_id_None [of "VInt id'" "stored s"] by (cases "find (\<lambda>r. row_id r = VInt id') (stored s)") auto
  moreover from this have "r \<in> set (stored s) \<and> row_id r = VInt id'"
    by (auto simp: find_Some_iff)
  ultimately show ?thesis
    using assms(1) by (simp add: get_by_id_def query_get_def clean_def close_clean)
qed

lemma get_by_id_missing:
  assumes "clean s" and "\<not> list_ex (\<lambda>r. row_id r = VInt id') (stored s)"
  shows "get_by_id m s id' = (Inl RecordNotFoundError, s)"
  using assms find_id_None [of "VInt id'" "stored s"]
  by (simp add: get_by_id_def query_get_def clean_def close_clean)

text \<open>
  C3. On a clean session, \<open>get_by_id\<close> raises \<open>RecordNotFoundError\<close> exactly when
  no stored record has the primary key \<open>id'\<close>; otherwise it returns a stored record
  with that key; in both cases it leaves the session, and so the stored table, as it found
  it.
\<close>

theorem C3_get_by_id:
  assumes "clean s"
  shows "((fst (get_by_id m s id') = Inl RecordNotFoundError)
            = (\<not> list_ex (\<lambda>r. row_id r = VInt id') (stored s)))
       \<and> (list_ex (\<lambda>r. row_id r = VInt id') (stored s) \<longrightarrow>
            (\<exists>r. fst (get_by_id m s id') = Inr r \<and> r \<in> set (stored s) \<and> row_id r = VInt id'))
       \<and> snd (get_by_id m s id') = s"
proof (cases "find (\<lambda>r. row_id r = VInt id') (stored s)")
  case None
  then show ?thesis
    using assms find_id_None [of "VInt id'" "stored s"]
    by (simp add: get_by_id_def query_get_def clean_def close_clean)
next
  case (Some r)
  then have "r \<in> set (stored s) \<and> row_id r = VInt id'"
    by (auto simp: find_Some_iff)
  moreover have "list_ex (\<lambda>r. row_id r = VInt id') (stored s)"
    using Some find_id_None [of "VInt id'" "stored s"] by simp
  ultimately show ?thesis
    using assms Some
    by (simp add: get_by_id_def query_get_def clean_def close_clean)
qed

theorem C3_get_by_id_witness:
  "clean s0 \<and> get_by_id m0 s0 3 = (Inl RecordNotFoundError, s0) \<and> get_by_id m0 s0 2 = (Inr r2, s0)"
proof -
  have "\<exists>r. fst (get_by_id m0 s0 2) = Inr r \<and> r \<in> set (stored s0) \<and> row_id r = VInt 2"
    using C3_get_by_id [OF s0_clean, of m0 2] by (simp add: s0_stored s0_ids)
  then have "fst (get_by_id m0 s0 2) = Inr r2"
    by (auto simp: s0_stored s0_ids)
  then show ?thesis
    using C3_get_by_id [OF s0_clean, of m0 3] C3_get_by_id [OF s0_clean, of m0 2] s0_clean
    by (simp add: s0_stored s0_ids prod_eq_iff)
qed

section \<open>\<open>delete\<close> in the two controllers\<close>

lemma delete_found:
  assumes "clean s" and "list_ex (\<lambda>r. row_id r = VInt id') (stored s)"
  shows "delete m s id' =
           (Inr True, \<lparr>stored = filter (\<lambda>r. row_id r \<noteq> VInt id') (stored s),
                       txn = filter (\<lambda>r. row_id r \<noteq> VInt id') (stored s),
                       new = [], deleted = []\<rparr>)"
  using assms
  by (cases s)
     (simp add: delete_def query_delete_def hit_id filter_empty_list_ex clean_def
        commit_nothing_pending session_close_def)

lemma delete_missing:
  assumes "clean s" and "\<not> list_ex (\<lambda>r. row_id r = VInt id') (stored s)"
  shows "delete m s id' = (Inl RecordNotFoundError, s)"
  using assms
  by (cases s)
     (simp add: delete_def query_delete_def hit_id filter_empty_list_ex clean_def
        delete_except_def session_close_def session_rollback_def)

lemma commit_delete_one:
  assumes "clean s"
  shows "session_commit m (session_delete s r) =
           (Inr [], \<lparr>stored = filter (\<lambda>x. row_id x \<noteq> row_id r) (stored s),
                     txn = filter (\<lambda>x. row_id x \<noteq> row_id r) (stored s),
                     new = [], deleted = []\<rparr>)"
  using assms
  by (cases s) (simp add: session_commit_def session_flush_def session_delete_def clean_def)

lemma delete_b_found:
  assumes "clean s" and "list_ex (\<lambda>r. row_id r = VInt id') (stored s)"
  shows "delete_b m s id' =
           (Inr True, \<lparr>stored = filter (\<lambda>r. row_id r \<noteq> VInt id') (stored s),
                       txn = filter (\<lambda>r. row_id r \<noteq> VInt id') (stored s),
                       new = [], deleted = []\<rparr>)"
proof -
  obtain r where r: "get_by_id m s id' = (Inr r, s)" "row_id r = VInt id'"
    using get_by_id_found [OF assms] by blast
  show ?thesis
    using r assms(1)
    by (simp add: delete_b_def commit_delete_one session_close_def)
qed

lemma delete_b_missing:
  assumes "clean s" and "\<not> list_ex (\<lambda>r. row_id r = VInt id') (stored s)"
  shows "delete_b m s id' = (Inr False, s)"
  using get_by_id_missing [OF assms] assms(1)
  by (simp add: delete_b_def delete_except_b_def close_clean)

text \<open>
  C8, amended. The two \<open>delete\<close> methods agree when a record with the key exists:
  both return \<open>True\<close> and leave the table without the records of that key. When no
  record has the key they differ, by their \<^verbatim>\<open>except\<close> clauses: controllers/base.py
  returns \<open>False\<close>, controllers/base\_controller.py raises \<open>RecordNotFoundError\<close>;
  both leave the stored table unchanged.
\<close>

theorem C8_delete_agree_when_found:
  assumes "clean s"
  shows "(list_ex (\<lambda>r. row_id r = VInt id') (stored s) \<longrightarrow>
            delete m s id' = delete_b m s id'
            \<and> fst (delete m s id') = Inr True
            \<and> stored (snd (delete m s id')) = filter (\<lambda>r. row_id r \<noteq> VInt id') (stored s))
       \<and> (\<not> list_ex (\<lambda>r. row_id r = VInt id') (stored s) \<longrightarrow>
            delete m s id' = (Inl RecordNotFoundError, s)
            \<and> delete_b m s id' = (Inr False, s))"
  using delete_found [OF assms] delete_b_found [OF assms]
    delete_missing [OF assms] delete_b_missing [OF assms]
  by simp

theorem C8_delete_agree_when_found_witness:
  "clean s0
   \<and> delete m0 s0 2 = delete_b m0 s0 2
   \<and> delete m0 s0 2 = (Inr True, \<lparr>stored = [r1], txn = [r1], new = [], deleted = []\<rparr>)
   \<and> delete m0 s0 3 = (Inl RecordNotFoundError, s0)
   \<and> delete_b m0 s0 3 = (Inr False, s0)"
  using C8_delete_agree_when_found [OF s0_clean, of 2 m0] C8_delete_agree_when_found [OF s0_clean, of 3 m0]
    delete_found [OF s0_clean, of 2 m0]
  by (simp add: s0_clean s0_stored s0_ids)

text \<open>
  As stated, C8 fails on the sample table at the key 3, which no record has: one method
  raises, the other returns \<open>False\<close>.
\<close>

theorem C8_delete_differ_counterexample:
  "fst (delete m0 s0 3) = Inl RecordNotFoundError \<and> fst (delete_b m0 s0 3) = Inr False"
  by (simp add: delete_missing delete_b_missing s0_clean s0_stored s0_ids)

section \<open>\<open>create\<close>\<close>

lemma commit_add_one:
  assumes "clean s"
  shows "session_commit m (session_add s r) =
           (if violates m (stored s) (with_id (stored s) r)
            then (Inl IntegrityError, session_add s r)
            else (Inr [with_id (stored s) r],
                  \<lparr>stored = stored s @ [with_id (stored s) r],
                    txn = stored s @ [with_id (stored s) r], new = [], deleted = []\<rparr>))"
  using assms
  by (cases s)
     (simp add: session_commit_def session_flush_def session_add_def clean_def db_insert_def Let_def)

lemma close_rollback_add: "clean s \<Longrightarrow> session_close (session_rollback (session_add s r)) = s"
  by (cases s) (simp add: session_close_def session_rollback_def session_add_def clean_def)

lemma create_valid:
  assumes "clean s" and "list_all (hasattr m) (map fst kw)"
  shows "create m s kw =
           (if violates m (stored s) (with_id (stored s) (set_attrs [] kw))
            then (Inl RecordAlreadyExistsError, s)
            else (Inr (with_id (stored s) (set_attrs [] kw)),
                  \<lparr>stored = stored s @ [with_id (stored s) (set_attrs [] kw)],
                    txn = stored s @ [with_id (stored s) (set_attrs [] kw)],
                    new = [], deleted = []\<rparr>))"
  using assms
  by (simp add: create_def model_init_def commit_add_one close_rollback_add refreshed_def
        close_lit)

lemma create_invalid:
  assumes "\<not> list_all (hasattr m) (map fst kw)"
  shows "create m s kw = (Inl TypeError, session_close s)"
  using assms by (simp add: create_def model_init_def)

text \<open>
  C1, amended. For a call whose keywords all name attributes of the model, on a clean
  session: if the new record (with its key) violates an integrity constraint of the stored
  table, \<open>create\<close> raises \<open>RecordAlreadyExistsError\<close> and the session is as before;
  otherwise it returns the new record, which is now the last of the stored table, and the
  session is clean.
\<close>

theorem C1_create:
  assumes "clean s" and "list_all (hasattr m) (map fst kw)"
  shows "(violates m (stored s) (with_id (stored s) (set_attrs [] kw)) \<longrightarrow>
            create m s kw = (Inl RecordAlreadyExistsError, s))
       \<and> (\<not> violates m (stored s) (with_id (stored s) (set_attrs [] kw)) \<longrightarrow>
            (\<exists>r. fst (create m s kw) = Inr r
                 \<and> r = with_id (stored s) (set_attrs [] kw)
                 \<and> stored (snd (create m s kw)) = stored s @ [r]
                 \<and> clean (snd (create m s kw))))"
  using create_valid [OF assms] by (simp add: clean_def)

theorem C1_create_witness:
  "clean s0
   \<and> create m0 s0 [(''name'', VStr ''Cy''), (''email'', VStr ''a@x'')] = (Inl RecordAlreadyExistsError, s0)
   \<and> fst (create m0 s0 [(''name'', VStr ''Cy''), (''email'', VStr ''c@x'')])
       = Inr [(''name'', VStr ''Cy''), (''email'', VStr ''c@x''), (''id'', VInt 3)]
   \<and> stored (snd (create m0 s0 [(''name'', VStr ''Cy''), (''email'', VStr ''c@x'')]))
       = [r1, r2, [(''name'', VStr ''Cy''), (''email'', VStr ''c@x''), (''id'', VInt 3)]]"
proof -
  have h: "list_all (hasattr m0) (map fst [(''name'', VStr ''Cy''), (''email'', VStr ''a@x'')])"
    "list_all (hasattr m0) (map fst [(''name'', VStr ''Cy''), (''email'', VStr ''c@x'')])"
    by (simp_all add: m0_def hasattr_def)
  have w: "with_id (stored s0) (set_attrs [] [(''name'', VStr ''Cy''), (''email'', VStr ''c@x'')])
         = [(''name'', VStr ''Cy''), (''email'', VStr ''c@x''), (''id'', VInt 3)]"
    by (simp add: with_id_def set_attrs_def s0_stored row_id_def lookup_def next_id_def ids_def
        r1_def r2_def)
  have v1: "violates m0 (stored s0)
              (with_id (stored s0) (set_attrs [] [(''name'', VStr ''Cy''), (''email'', VStr ''a@x'')]))"
    by (simp add: with_id_def set_attrs_def s0_stored row_id_def lookup_def next_id_def ids_def
        r1_def r2_def violates_def conflicts_def is_int_def m0_def)
  have v2: "\<not> violates m0 (stored s0)
              (with_id (stored s0) (set_attrs [] [(''name'', VStr ''Cy''), (''email'', VStr ''c@x'')]))"
    by (simp add: with_id_def set_attrs_def s0_stored row_id_def lookup_def next_id_def ids_def
        r1_def r2_def violates_def conflicts_def is_int_def m0_def)
  show ?thesis
    using C1_create [OF s0_clean h(1)] C1_create [OF s0_clean h(2)] v1 v2 w s0_clean
    by (simp add: s0_stored)
qed

text \<open>
  As stated, C1 fails for a keyword that is not an attribute: nothing violates a
  constraint, and yet no instance is returned; the constructor raises \<open>TypeError\<close>.
\<close>

theorem C1_create_counterexample:
  "\<not> violates m0 (stored s0) (with_id (stored s0) (set_attrs [] [(''name'', VStr ''Cy''), (''bogus'', VInt 1)]))
   \<and> create m0 s0 [(''name'', VStr ''Cy''), (''bogus'', VInt 1)] = (Inl TypeError, s0)"
  by (simp add: create_invalid close_clean s0_clean m0_def hasattr_def s0_stored r1_def r2_def
        violates_def with_id_def row_id_def lookup_def set_attrs_def next_id_def ids_def
        conflicts_def is_int_def)

section \<open>\<open>update\<close>\<close>

















section \<open>\<open>paginate\<close>\<close>

lemma apply_filters_criteria:
  "list_all (\<lambda>c. matches c r) (criteria (apply_filters m q f))
     = (list_all (\<lambda>c. matches c r) (criteria q) \<and> satisfies m f r)"
proof (induction f arbitrary: q)
  case Nil
  show ?case by (simp add: satisfies_def)
next
  case (Cons p f)
  obtain k v where p: "p = (k, v)" by (cases p)
  show ?case
  proof (cases "hasattr m k")
    case False
    then show ?thesis
      using Cons.IH [of q] by (simp add: p satisfies_def)
  next
    case True
    then show ?thesis
      using Cons.IH [of "query_filter q (In k vs)" for vs] Cons.IH [of "query_filter q (Eq k v)"]
      by (cases v) (auto simp: p satisfies_def query_filter_def)
  qed
qed

lemma apply_filters_rest:
  "ordering (apply_filters m q f) = ordering q
   \<and> q_offset (apply_filters m q f) = q_offset q
   \<and> q_limit (apply_filters m q f) = q_limit q"
proof (induction f arbitrary: q)
  case Nil
  show ?case by simp
next
  case (Cons p f)
  obtain k v where p: "p = (k, v)" by (cases p)
  show ?case
    using Cons.IH [of q] Cons.IH [of "query_filter q (In k vs)" for vs]
      Cons.IH [of "query_filter q (Eq k v)"]
    by (cases v) (simp_all add: p query_filter_def)
qed

lemma matching_apply_filters:
  "matching s (apply_filters m session_query f) = filter (satisfies m f) (txn s)"
  by (simp add: matching_def apply_filters_criteria) (simp add: session_query_def)

lemma matching_session_query: "matching s session_query = txn s"
  by (simp add: matching_def session_query_def)

lemma satisfies_Nil: "satisfies m [] r"
  by (simp add: satisfies_def)

lemma filtered_query:
  "matching s (if f \<noteq> [] then apply_filters m session_query f else session_query)
     = filter (satisfies m f) (txn s)"
  by (simp add: matching_apply_filters matching_session_query satisfies_Nil)

lemma filtered_query_rest:
  "ordering (if f \<noteq> [] then apply_filters m session_query f else session_query) = None
   \<and> q_offset (if f \<noteq> [] then apply_filters m session_query f else session_query) = None
   \<and> q_limit (if f \<noteq> [] then apply_filters m session_query f else session_query) = None"
  by (simp add: apply_filters_rest) (simp add: session_query_def)

lemma matching_modifiers:
  "matching s (query_limit q n) = matching s q"
  "matching s (query_offset q n) = matching s q"
  "matching s (query_order_by q c d) = matching s q"
  by (simp_all add: matching_def query_limit_def query_offset_def query_order_by_def)

lemma query_all_page:
  assumes "ordering q = None"
  shows "query_all s (query_limit (query_offset q off) lm)
           = apply_limit (Some lm) (apply_offset (Some off) (matching s q))"
  using assms
  by (simp add: query_all_def matching_modifiers order_rows_def)
     (simp add: query_limit_def query_offset_def)

lemma query_count_plain:
  assumes "ordering q = None" and "q_offset q = None" and "q_limit q = None"
  shows "query_count s q = int (length (matching s q))"
  using assms
  by (simp add: query_count_def query_all_def order_rows_def apply_offset_def apply_limit_def)

lemma paginate_eq:
  assumes "per_page \<noteq> 0"
  shows "paginate m s page per_page f =
           (Inr \<lparr>r_items = apply_limit (Some per_page)
                              (apply_offset (Some ((page - 1) * per_page))
                                 (filter (satisfies m f) (txn s))),
                  r_total = int (length (filter (satisfies m f) (txn s))),
                  r_page = page, r_per_page = per_page,
                  r_pages = (int (length (filter (satisfies m f) (txn s))) + per_page - 1)
                              div per_page\<rparr>,
            session_close s)"
proof -
  define q where "q = (if f \<noteq> [] then apply_filters m session_query f else session_query)"
  have m: "matching s q = filter (satisfies m f) (txn s)"
    unfolding q_def by (rule filtered_query)
  have r: "ordering q = None" "q_offset q = None" "q_limit q = None"
    unfolding q_def using filtered_query_rest [of f m] by simp_all
  have "paginate m s page per_page f =
          (Inr \<lparr>r_items = query_all s (query_limit (query_offset q ((page - 1) * per_page)) per_page),
                 r_total = query_count s q, r_page = page, r_per_page = per_page,
                 r_pages = (query_count s q + per_page - 1) div per_page\<rparr>,
           session_close s)"
    using assms unfolding paginate_def q_def Let_def by simp
  then show ?thesis
    by (simp add: query_all_page [OF r(1)] query_count_plain [OF r] m)
qed

lemma ceil_div_bounds:
  fixes t p :: int
  assumes "0 < p"
  shows "((t + p - 1) div p - 1) * p < t \<and> t \<le> ((t + p - 1) div p) * p"
proof -
  have eq: "(t + p - 1) div p * p + (t + p - 1) mod p = t + p - 1"
    by simp
  have r: "0 \<le> (t + p - 1) mod p" "(t + p - 1) mod p < p"
    using assms by simp_all
  have "((t + p - 1) div p - 1) * p = (t + p - 1) div p * p - p"
    by (simp add: left_diff_distrib)
  then show ?thesis
    using eq r by linarith
qed

lemma ceil_div_ceiling:
  fixes t p :: int
  assumes "0 < p"
  shows "(t + p - 1) div p = \<lceil>real_of_int t / real_of_int p\<rceil>"
proof -
  let ?k = "(t + p - 1) div p"
  have b: "(?k - 1) * p < t" "t \<le> ?k * p"
    using ceil_div_bounds [OF assms, of t] by simp_all
  have "real_of_int ((?k - 1) * p) < real_of_int t" "real_of_int t \<le> real_of_int (?k * p)"
    using b by linarith+
  then have "real_of_int ?k - 1 < real_of_int t / real_of_int p"
    and "real_of_int t / real_of_int p \<le> real_of_int ?k"
    using assms by (simp_all add: field_simps)
  then show ?thesis
    by (simp add: ceiling_unique)
qed

lemma insort_by_set: "set (insort_by le x ys) = insert x (set ys)"
  by (induction ys) auto

lemma insort_by_length: "length (insort_by le x ys) = Suc (length ys)"
  by (induction ys) auto

lemma foldr_insort_by: "set (foldr (insort_by le) xs []) = set xs \<and> length (foldr (insort_by le) xs []) = length xs"
  by (induction xs) (simp_all add: insort_by_set insort_by_length)

lemma order_rows_perm:
  "set (order_rows ord rows) = set rows \<and> length (order_rows ord rows) = length rows"
proof (cases ord)
  case None
  then show ?thesis by (simp add: order_rows_def)
next
  case (Some p)
  obtain c d where "p = (c, d)" by (cases p)
  then show ?thesis
    using Some foldr_insort_by by (cases d) (simp_all add: order_rows_def)
qed

lemma apply_filters_b_eq:
  "apply_filters_b m q f =
     (if list_all (hasattr m) (map fst f) then Inr (apply_filters m q f) else Inl AttributeError)"
proof (induction f arbitrary: q)
  case Nil
  show ?case by simp
next
  case (Cons p f)
  obtain k v where p: "p = (k, v)" by (cases p)
  show ?case
    using Cons.IH [of "query_filter q (In k vs)" for vs] Cons.IH [of "query_filter q (Eq k v)"]
    by (cases v) (simp_all add: p getattr_def)
qed

lemma query_all_page_ordered:
  "query_all s (query_limit (query_offset (query_order_by q c d) off) lm)
     = apply_limit (Some lm) (apply_offset (Some off) (order_rows (Some (c, d)) (matching s q)))"
  by (simp add: query_all_def matching_modifiers)
     (simp add: query_limit_def query_offset_def query_order_by_def)

lemma paginate_b_invalid:
  assumes "\<not> valid_options m options"
  shows "paginate_b m s options = (Inl AttributeError, session_close s)"
proof (cases "list_all (hasattr m) (map fst (o_filters options))")
  case False
  then have "o_filters options \<noteq> []" by auto
  then show ?thesis
    using False by (simp add: paginate_b_def apply_filters_b_eq)
next
  case True
  then obtain name where n: "o_order_by options = Some name" "name \<noteq> []" "\<not> hasattr m name"
    using assms by (auto simp: valid_options_def split: option.splits)
  show ?thesis
    using True n by (simp add: paginate_b_def apply_filters_b_eq getattr_def Let_def)
qed

lemma paginate_b_eq:
  assumes "valid_options m options" and "o_per_page options \<noteq> 0"
  shows "paginate_b m s options =
           (Inr \<lparr>r_items = apply_limit (Some (o_per_page options))
                              (apply_offset (Some ((o_page options - 1) * o_per_page options))
                                 (order_rows (options_ordering options)
                                    (filter (satisfies m (o_filters options)) (txn s)))),
                  r_total = int (length (filter (satisfies m (o_filters options)) (txn s))),
                  r_page = o_page options, r_per_page = o_per_page options,
                  r_pages = (int (length (filter (satisfies m (o_filters options)) (txn s)))
                               + o_per_page options - 1) div o_per_page options\<rparr>,
            session_close s)"
proof -
  let ?f = "o_filters options"
  define q where "q = (if ?f \<noteq> [] then apply_filters m session_query ?f else session_query)"
  have m: "matching s q = filter (satisfies m ?f) (txn s)"
    unfolding q_def by (rule filtered_query)
  have r: "ordering q = None" "q_offset q = None" "q_limit q = None"
    unfolding q_def using filtered_query_rest [of ?f m] by simp_all
  have valid: "list_all (hasattr m) (map fst ?f)"
    using assms(1) by (simp add: valid_options_def)
  have fq: "(if ?f \<noteq> [] then apply_filters_b m session_query ?f else Inr session_query) = Inr q"
    using valid by (simp add: q_def apply_filters_b_eq)
  show ?thesis
  proof (cases "options_ordering options")
    case None
    then have "(case o_order_by options of None \<Rightarrow> Inr q
                | Some name \<Rightarrow> if name = [] then Inr q
                    else (case getattr m name of Inl e \<Rightarrow> Inl e
                          | Inr column \<Rightarrow> Inr (query_order_by q column (o_direction options))))
               = Inr q"
      by (simp add: options_ordering_def split: option.splits if_splits)
    then show ?thesis
      using assms(2) None
      by (simp add: paginate_b_def fq Let_def query_all_page [OF r(1)] query_count_plain [OF r] m
          order_rows_def)
  next
    case (Some p)
    then obtain name where n: "o_order_by options = Some name" "name \<noteq> []"
        "p = (name, o_direction options)"
      by (auto simp: options_ordering_def split: option.splits if_splits)
    then have "hasattr m name"
      using assms(1) by (simp add: valid_options_def)
    then show ?thesis
      using assms(2) Some n
      by (simp add: paginate_b_def fq Let_def getattr_def query_all_page_ordered
          query_count_plain [OF r] m)
  qed
qed

lemma s0_txn: "txn s0 = [r1, r2]"
  by (simp add: s0_def)

lemma page_items_bound:
  assumes "0 \<le> per_page"
  shows "int (length (apply_limit (Some per_page) rows)) \<le> per_page"
  using assms by (simp add: apply_limit_def)

text \<open>
  C4, amended. On a clean session, for \<open>page \<ge> 1\<close> and \<open>per_page \<ge> 1\<close>:
  \<open>paginate\<close> of controllers/base\_controller.py returns the dictionary whose
  \<open>total\<close> is the number of stored records matching the filters, whose \<open>items\<close> are
  at most \<open>per_page\<close> records, got by skipping the first \<open>(page - 1) * per_page\<close>
  matching records, and whose \<open>pages\<close> is \<open>(total + per_page - 1) div per_page\<close>,
  the ceiling of \<open>total / per_page\<close>. \<open>paginate\<close> of controllers/base.py does the
  same, on the matching records in the order asked for, provided every filter key and the
  ordering column are attributes of the model.
\<close>

theorem C4_paginate:
  assumes "clean s" and "1 \<le> page" and "1 \<le> per_page"
  shows "(\<exists>R. paginate m s page per_page f = (Inr R, s)
            \<and> r_total R = int (length (filter (satisfies m f) (stored s)))
            \<and> r_items R = take (nat per_page) (drop (nat ((page - 1) * per_page))
                              (filter (satisfies m f) (stored s)))
            \<and> int (length (r_items R)) \<le> per_page
            \<and> r_page R = page \<and> r_per_page R = per_page
            \<and> r_pages R = (r_total R + per_page - 1) div per_page
            \<and> r_pages R = \<lceil>real_of_int (r_total R) / real_of_int per_page\<rceil>)
       \<and> (valid_options m options \<and> o_page options = page \<and> o_per_page options = per_page \<longrightarrow>
            (\<exists>R. paginate_b m s options = (Inr R, s)
               \<and> r_total R = int (length (filter (satisfies m (o_filters options)) (stored s)))
               \<and> r_items R = take (nat per_page) (drop (nat ((page - 1) * per_page))
                                 (order_rows (options_ordering options)
                                    (filter (satisfies m (o_filters options)) (stored s))))
               \<and> set (order_rows (options_ordering options)
                         (filter (satisfies m (o_filters options)) (stored s)))
                   = set (filter (satisfies m (o_filters options)) (stored s))
               \<and> int (length (r_items R)) \<le> per_page
               \<and> r_page R = page \<and> r_per_page R = per_page
               \<and> r_pages R = (r_total R + per_page - 1) div per_page
               \<and> r_pages R = \<lceil>real_of_int (r_total R) / real_of_int per_page\<rceil>))"
proof -
  have pp: "per_page \<noteq> 0" "0 < per_page" "\<not> per_page < 0"
    using assms(3) by simp_all
  have txn: "txn s = stored s" and cl: "session_close s = s"
    using assms(1) by (simp_all add: clean_def close_clean)
  have a: "\<exists>R. paginate m s page per_page f = (Inr R, s)
            \<and> r_total R = int (length (filter (satisfies m f) (stored s)))
            \<and> r_items R = take (nat per_page) (drop (nat ((page - 1) * per_page))
                              (filter (satisfies m f) (stored s)))
            \<and> int (length (r_items R)) \<le> per_page
            \<and> r_page R = page \<and> r_per_page R = per_page
            \<and> r_pages R = (r_total R + per_page - 1) div per_page
            \<and> r_pages R = \<lceil>real_of_int (r_total R) / real_of_int per_page\<rceil>"
    using paginate_eq [OF pp(1), of m s page f] pp
    by (simp add: txn cl apply_limit_def apply_offset_def ceil_div_ceiling)
  have b: "\<exists>R. paginate_b m s options = (Inr R, s)
               \<and> r_total R = int (length (filter (satisfies m (o_filters options)) (stored s)))
               \<and> r_items R = take (nat per_page) (drop (nat ((page - 1) * per_page))
                                 (order_rows (options_ordering options)
                                    (filter (satisfies m (o_filters options)) (stored s))))
               \<and> set (order_rows (options_ordering options)
                         (filter (satisfies m (o_filters options)) (stored s)))
                   = set (filter (satisfies m (o_filters options)) (stored s))
               \<and> int (length (r_items R)) \<le> per_page
               \<and> r_page R = page \<and> r_per_page R = per_page
               \<and> r_pages R = (r_total R + per_page - 1) div per_page
               \<and> r_pages R = \<lceil>real_of_int (r_total R) / real_of_int per_page\<rceil>"
    if v: "valid_options m options" and o: "o_page options = page" "o_per_page options = per_page"
  proof -
    have "o_per_page options \<noteq> 0"
      using o pp by simp
    from paginate_b_eq [OF v this, of s] show ?thesis
      using pp order_rows_perm [of "options_ordering options"
          "filter (satisfies m (o_filters options)) (stored s)"]
      by (simp add: o txn cl apply_limit_def apply_offset_def ceil_div_ceiling)
  qed
  show ?thesis
    using a b by blast
qed

text \<open>
  As stated, C4 fails for controllers/base.py: with a filter key that is not an attribute,
  \<open>paginate\<close> returns no dictionary; \<^verbatim>\<open>getattr\<close> raises \<open>AttributeError\<close>.
\<close>

theorem C4_paginate_counterexample:
  "paginate_b m0 s0 \<lparr>o_page = 1, o_per_page = 1, o_order_by = None, o_direction = ASCENDING,
                      o_filters = [(''bogus'', VInt 1)]\<rparr>
     = (Inl AttributeError, s0)"
  by (simp add: paginate_b_invalid valid_options_def m0_def hasattr_def close_clean s0_clean)

theorem C4_paginate_witness:
  "clean s0 \<and> valid_options m0 opts0
   \<and> fst (paginate m0 s0 2 1 [(''bogus'', VInt 7)])
       = Inr \<lparr>r_items = [r2], r_total = 2, r_page = 2, r_per_page = 1, r_pages = 2\<rparr>
   \<and> fst (paginate_b m0 s0 opts0)
       = Inr \<lparr>r_items = [r2], r_total = 2, r_page = 1, r_per_page = 1, r_pages = 2\<rparr>"
proof -
  have v: "valid_options m0 opts0"
    by (simp add: valid_options_def opts0_def m0_def hasattr_def)
  have o: "o_page opts0 = 1" "o_per_page opts0 = 1"
    by (simp_all add: opts0_def)
  have sat1: "satisfies m0 [(''bogus'', VInt 7)] r" for r
    by (simp add: satisfies_def m0_def hasattr_def)
  have sat2: "satisfies m0 (o_filters opts0) r1" "satisfies m0 (o_filters opts0) r2"
    by (simp_all add: opts0_def satisfies_def m0_def hasattr_def r1_def r2_def lookup_def)
  have ord: "order_rows (options_ordering opts0) [r1, r2] = [r2, r1]"
    by (simp add: options_ordering_def opts0_def order_rows_def r1_def r2_def lookup_def)
  have "\<exists>R. paginate m0 s0 2 1 [(''bogus'', VInt 7)] = (Inr R, s0)
          \<and> r_total R = 2 \<and> r_items R = [r2] \<and> r_page R = 2 \<and> r_per_page R = 1 \<and> r_pages R = 2"
    using C4_paginate [OF s0_clean, of 2 1 m0 "[(''bogus'', VInt 7)]" opts0]
    by (auto simp: s0_stored sat1)
  then have a: "fst (paginate m0 s0 2 1 [(''bogus'', VInt 7)])
       = Inr \<lparr>r_items = [r2], r_total = 2, r_page = 2, r_per_page = 1, r_pages = 2\<rparr>"
    by auto
  have "\<exists>R. paginate_b m0 s0 opts0 = (Inr R, s0)
          \<and> r_total R = 2 \<and> r_items R = [r2] \<and> r_page R = 1 \<and> r_per_page R = 1 \<and> r_pages R = 2"
    using C4_paginate [OF s0_clean, of 1 1 m0 "[]" opts0] v o
    by (auto simp: s0_stored sat2 ord)
  then have b: "fst (paginate_b m0 s0 opts0)
       = Inr \<lparr>r_items = [r2], r_total = 2, r_page = 1, r_per_page = 1, r_pages = 2\<rparr>"
    by auto
  show ?thesis
    using a b v s0_clean by simp
qed

text \<open>
  C10. For a positive \<open>per_page\<close> and every \<open>page\<close>, \<open>paginate\<close> of
  controllers/base\_controller.py returns a dictionary, and \<open>paginate\<close> of
  controllers/base.py never raises \<open>ValueError\<close> (it returns a dictionary when its
  options are valid); the items are taken after the offset \<open>(page - 1) * per_page\<close>.
  For \<open>page < 1\<close> that offset is negative and skips nothing, while
  \<open>validate_pagination\<close>, which \<open>paginate\<close> does not call, raises \<open>ValueError\<close>
  exactly then.
\<close>

theorem C10_paginate_no_validation:
  assumes "0 < per_page"
  shows "(\<exists>R. paginate m s page per_page f = (Inr R, session_close s)
            \<and> r_items R = apply_limit (Some per_page)
                             (apply_offset (Some (calculate_offset page per_page))
                                (filter (satisfies m f) (txn s)))
            \<and> r_page R = page)
       \<and> (o_page options = page \<and> o_per_page options = per_page \<longrightarrow>
            fst (paginate_b m s options) \<noteq> Inl ValueError
            \<and> (valid_options m options \<longrightarrow>
                 (\<exists>R. paginate_b m s options = (Inr R, session_close s)
                    \<and> r_items R = apply_limit (Some per_page)
                                     (apply_offset (Some (calculate_offset page per_page))
                                        (order_rows (options_ordering options)
                                           (filter (satisfies m (o_filters options)) (txn s))))
                    \<and> r_page R = page)))
       \<and> ((validate_pagination page per_page = Inl ValueError) = (page < 1))
       \<and> (page < 1 \<longrightarrow>
            calculate_offset page per_page < 0
            \<and> apply_offset (Some (calculate_offset page per_page)) (filter (satisfies m f) (txn s))
                = filter (satisfies m f) (txn s))"
proof -
  have pp: "per_page \<noteq> 0"
    using assms by simp
  have a: "\<exists>R. paginate m s page per_page f = (Inr R, session_close s)
            \<and> r_items R = apply_limit (Some per_page)
                             (apply_offset (Some (calculate_offset page per_page))
                                (filter (satisfies m f) (txn s)))
            \<and> r_page R = page"
    using paginate_eq [OF pp, of m s page f] by (simp add: calculate_offset_def)
  have b: "fst (paginate_b m s options) \<noteq> Inl ValueError
            \<and> (valid_options m options \<longrightarrow>
                 (\<exists>R. paginate_b m s options = (Inr R, session_close s)
                    \<and> r_items R = apply_limit (Some per_page)
                                     (apply_offset (Some (calculate_offset page per_page))
                                        (order_rows (options_ordering options)
                                           (filter (satisfies m (o_filters options)) (txn s))))
                    \<and> r_page R = page))"
    if o: "o_page options = page" "o_per_page options = per_page"
  proof (cases "valid_options m options")
    case False
    then show ?thesis
      by (simp add: paginate_b_invalid)
  next
    case True
    have "o_per_page options \<noteq> 0"
      using o pp by simp
    from paginate_b_eq [OF True this, of s] show ?thesis
      using True by (simp add: o calculate_offset_def)
  qed
  have c: "(validate_pagination page per_page = Inl ValueError) = (page < 1)"
    using assms by (simp add: validate_pagination_def)
  have d: "calculate_offset page per_page < 0
            \<and> apply_offset (Some (calculate_offset page per_page)) (filter (satisfies m f) (txn s))
                = filter (satisfies m f) (txn s)"
    if "page < 1"
  proof -
    have "page - 1 < 0" using that by simp
    then have "(page - 1) * per_page < 0"
      using assms by (simp add: mult_neg_pos)
    then show ?thesis
      by (simp add: calculate_offset_def apply_offset_def)
  qed
  show ?thesis
    using a b c d by blast
qed

theorem C10_paginate_no_validation_witness:
  "validate_pagination 0 1 = Inl ValueError
   \<and> calculate_offset 0 1 = - 1
   \<and> map_sum id r_items (fst (paginate m0 s0 0 1 [])) = Inr [r1]
   \<and> map_sum id r_page (fst (paginate m0 s0 0 1 [])) = Inr 0"
proof -
  have sat: "satisfies m0 [] r" for r
    by (simp add: satisfies_def)
  have "\<exists>R. paginate m0 s0 0 1 [] = (Inr R, session_close s0) \<and> r_items R = [r1] \<and> r_page R = 0"
    using C10_paginate_no_validation [of 1 m0 s0 0 "[]" opts0]
    by (auto simp: sat s0_txn apply_limit_def apply_offset_def calculate_offset_def)
  then show ?thesis
    by (auto simp: validate_pagination_def calculate_offset_def)
qed

section \<open>\<open>count\<close> and \<open>exists\<close>\<close>

lemma count_eq:
  "count m s f =
     (Inr (int (length (filter (\<lambda>r. row_id r \<noteq> VNone) (filter (satisfies m f) (txn s))))),
      session_close s)"
proof -
  define q where "q = (if f \<noteq> [] then apply_filters m session_query f else session_query)"
  have m: "matching s q = filter (satisfies m f) (txn s)"
    unfolding q_def by (rule filtered_query)
  have r: "ordering q = None" "q_offset q = None" "q_limit q = None"
    unfolding q_def using filtered_query_rest [of f m] by simp_all
  have "query_all s q = matching s q"
    using r by (simp add: query_all_def order_rows_def apply_offset_def apply_limit_def)
  then show ?thesis
    unfolding count_def Let_def q_def [symmetric] by (simp add: query_count_id_def m)
qed

text \<open>
  C9. \<open>count\<close> returns the number \<open>n\<close> of records that match the filters,
  \<open>exists\<close> returns \<open>True\<close> exactly when \<open>0 < n\<close>, and neither changes the stored
  table.
\<close>

theorem C9_exists_count:
  "\<exists>n. fst (count m s filters) = Inr n
      \<and> n = int (length (filter (\<lambda>r. row_id r \<noteq> VNone) (filter (satisfies m filters) (txn s))))
      \<and> fst (exists m s filters) = Inr (0 < n)
      \<and> stored (snd (count m s filters)) = stored s
      \<and> stored (snd (exists m s filters)) = stored s
      \<and> snd (exists m s filters) = snd (count m s filters)"
  by (simp add: exists_def count_eq stored_close)

theorem C9_exists_count_witness:
  "count m0 s0 [(''age'', VInt 41)] = (Inr 1, s0)
   \<and> exists m0 s0 [(''age'', VInt 41)] = (Inr True, s0)
   \<and> count m0 s0 [(''age'', VInt 5)] = (Inr 0, s0)
   \<and> exists m0 s0 [(''age'', VInt 5)] = (Inr False, s0)"
proof -
  have sat: "\<not> satisfies m0 [(''age'', VInt 41)] r1" "satisfies m0 [(''age'', VInt 41)] r2"
      "\<not> satisfies m0 [(''age'', VInt 5)] r1" "\<not> satisfies m0 [(''age'', VInt 5)] r2"
    by (simp_all add: satisfies_def m0_def hasattr_def r1_def r2_def lookup_def)
  have cl: "snd (count m0 s0 f) = s0" for f
    by (simp add: count_def Let_def close_clean s0_clean)
  show ?thesis
    using C9_exists_count [of m0 s0 "[(''age'', VInt 41)]"]
      C9_exists_count [of m0 s0 "[(''age'', VInt 5)]"] sat s0_ids
      cl [of "[(''age'', VInt 41)]"] cl [of "[(''age'', VInt 5)]"]
    by (auto simp: s0_txn prod_eq_iff)
qed

section \<open>\<open>find_by_attributes\<close>\<close>









section \<open>The password policy\<close>









section \<open>Properties of the worker\<close>

lemma step_flag:
  "is_running_flag (fst (step w e)) = (is_running_flag w \<and> e \<noteq> Call_stop)"
  by (cases e) (simp_all add: stop_def progress_callback_def label_callback_def)

lemma steps_flag:
  "is_running_flag (fst (steps w es)) = (is_running_flag w \<and> Call_stop \<notin> set es)"
proof (induction es arbitrary: w)
  case Nil
  show ?case by simp
next
  case (Cons e es)
  have "is_running_flag (fst (steps w (e # es))) = is_running_flag (fst (steps (fst (step w e)) es))"
    by (simp split: prod.splits)
  also have "\<dots> = (is_running_flag (fst (step w e)) \<and> Call_stop \<notin> set es)"
    by (rule Cons.IH)
  finally show ?case
    by (auto simp: step_flag)
qed

lemma steps_stopped_answers:
  "\<not> is_running_flag w \<Longrightarrow> b \<in> set (snd (steps w es)) \<Longrightarrow> \<not> b"
proof (induction es arbitrary: w)
  case Nil
  then show ?case by simp
next
  case (Cons e es)
  obtain w' out where st: "step w e = (w', out)"
    by (cases "step w e")
  have w': "\<not> is_running_flag w'"
    using step_flag [of w e] st Cons.prems(1) by simp
  have out: "out = None \<or> out = Some False"
    using st Cons.prems(1) by (cases e) (auto simp: is_running_def)
  have "b \<in> set (snd (steps w' es)) \<or> (out = Some b)"
    using Cons.prems(2) st by (auto split: prod.splits option.splits)
  then show ?case
    using Cons.IH [OF w'] out by auto
qed

text \<open>
  C7. The flag is \<open>True\<close> at construction and \<open>False\<close> after \<open>stop\<close>; no step sets
  it to \<open>True\<close> again, and the only step that changes it is \<open>stop\<close>; so once
  \<open>stop\<close> has been called, every later call of the closure \<open>is_running\<close>, whatever
  happens in between and also across a whole \<open>run\<close>, returns \<open>False\<close>.
\<close>

theorem C7_stop_is_final:
  "is_running_flag worker_init
   \<and> \<not> is_running_flag (stop w)
   \<and> (\<forall>e. is_running_flag (fst (step w e)) \<longrightarrow> is_running_flag w)
   \<and> (\<forall>e. e \<noteq> Call_stop \<longrightarrow> is_running_flag (fst (step w e)) = is_running_flag w)
   \<and> (\<forall>es. \<not> is_running (fst (steps (stop w) es)))
   \<and> (\<forall>es. \<forall>b \<in> set (snd (steps (stop w) es)). \<not> b)
   \<and> (\<forall>es outcome. \<forall>b \<in> set (snd (run (stop w) es outcome)). \<not> b)"
proof -
  have stopped: "\<not> is_running_flag (stop w)"
    by (simp add: stop_def)
  have a: "\<forall>es. \<forall>b \<in> set (snd (steps (stop w) es)). \<not> b"
    using steps_stopped_answers [OF stopped] by blast
  have "snd (run w0 es outcome) = snd (steps w0 es)" for w0 es outcome
    by (simp add: run_def split: prod.splits sum.splits)
  then have b: "\<forall>es outcome. \<forall>b \<in> set (snd (run (stop w) es outcome)). \<not> b"
    using a by simp
  show ?thesis
    using stopped a b
    by (simp add: worker_init_def step_flag steps_flag is_running_def)
qed

theorem C7_stop_is_final_witness:
  "snd (steps (stop worker_init) [Call_is_running, Call_progress 1 2, Call_is_running]) = [False, False]
   \<and> \<not> is_running (fst (steps (stop worker_init) [Call_label ''x'']))
   \<and> snd (steps worker_init [Call_is_running, Call_stop, Call_is_running]) = [True, False]"
  using C7_stop_is_final [of worker_init]
  by (simp add: stop_def worker_init_def is_running_def progress_callback_def label_callback_def)

end
